theory Spec2Isabelle
  imports Complex_Main "HOL-Library.Multiset"
begin

section \<open>The blogging backend of \<^verbatim>\<open>server.py\<close>\<close>

text \<open>
  The handlers of \<^verbatim>\<open>server.py\<close> are embedded as functions over an explicit
  database state. What the module obtains from its surroundings is made an argument:
  \<^item> the clock (\<^verbatim>\<open>datetime.now(timezone.utc)\<close>) is the argument \<open>now\<close>, an
    instant in microseconds since the epoch; the clock reads of one handler call are
    identified. Stored timestamps are ISO-8601 strings of UTC instants in the source,
    which compare as the instants do; the model stores the instant;
  \<^item> the clock as the token library reads it when it validates a token
    (\<^verbatim>\<open>datetime.now(tz=timezone.utc).timestamp()\<close>, a floating-point number of
    seconds since the epoch) is the argument \<open>clock\<close> of \<open>get_current_user\<close>:
    the real number that the floating-point value denotes;
  \<^item> \<^verbatim>\<open>uuid.uuid4()\<close> is the argument \<open>new_id\<close>;
  \<^item> the salt drawn by the password hasher is the argument \<open>salt\<close>;
  \<^item> the module globals \<^verbatim>\<open>SECRET_KEY\<close> and \<^verbatim>\<open>pwd_context\<close> are the
    fields of the record \<open>globals\<close>;
  \<^item> \<^verbatim>\<open>Depends(get_current_user)\<close> hands a handler the user document that
    \<open>get_current_user\<close> returned: the handler's argument \<open>current_user\<close>.
  A handler that writes returns its result, or the exception it raises, together with the
  database it leaves behind; one that only reads returns its result or its exception.
  An exception is the left injection of the sum, as everywhere below.
\<close>

subsection \<open>Exceptions\<close>

datatype exn =
    HTTPException (status_code: nat) (detail: string)
  | ExpiredSignatureError
  | InvalidSignatureError
  | InvalidAlgorithmError
  | DecodeError
  | AttributeError string
  | TypeError string

subsection \<open>Documents and request bodies\<close>

type_synonym instant = int

record user_doc =
  u_id :: string
  u_username :: string
  u_email :: string
  u_bio :: "string option"
  u_avatar :: "string option"
  u_created_at :: instant
  u_password_hash :: string

record UserRegister =
  ur_username :: string
  ur_email :: string
  ur_password :: string

record UserLogin =
  ul_email :: string
  ul_password :: string

record Article =
  a_id :: string
  a_author_id :: string
  a_author_username :: "string option"
  a_title :: string
  a_content :: string
  a_tags :: "string list"
  a_cover_image :: "string option"
  a_likes_count :: int
  a_comments_count :: int
  a_created_at :: instant
  a_updated_at :: instant

record ArticleCreate =
  ac_title :: string
  ac_content :: string
  ac_tags :: "string list"
  ac_cover_image :: "string option"

record ArticleUpdate =
  au_title :: "string option"
  au_content :: "string option"
  au_tags :: "string list option"
  au_cover_image :: "string option"

record Comment =
  c_id :: string
  c_article_id :: string
  c_user_id :: string
  c_username :: "string option"
  c_content :: string
  c_created_at :: instant

record Like =
  l_id :: string
  l_article_id :: string
  l_user_id :: string
  l_created_at :: instant

text \<open>The four collections of the database, each in insertion order.\<close>

record db =
  users :: "user_doc list"
  articles :: "Article list"
  comments :: "Comment list"
  likes :: "Like list"

definition empty_db :: db where
  "empty_db = \<lparr>users = [], articles = [], comments = [], likes = []\<rparr>"

subsection \<open>The operations of a collection\<close>

text \<open>
  The document store driver is not part of the repository. A collection is the list of
  its documents; a query is a predicate on documents. \<open>find_one\<close>, \<open>update_one\<close>
  and \<open>delete_one\<close> act on the first document that matches, \<open>delete_many\<close> on
  all of them; \<open>delete_one\<close> also returns \<^verbatim>\<open>deleted_count\<close>.
\<close>

definition find_one :: "('a \<Rightarrow> bool) \<Rightarrow> 'a list \<Rightarrow> 'a option" where
  "find_one q c = find q c"

definition insert_one :: "'a \<Rightarrow> 'a list \<Rightarrow> 'a list" where
  "insert_one d c = c @ [d]"

fun update_one :: "('a \<Rightarrow> bool) \<Rightarrow> ('a \<Rightarrow> 'a) \<Rightarrow> 'a list \<Rightarrow> 'a list" where
  "update_one q f [] = []"
| "update_one q f (d # ds) = (if q d then f d # ds else d # update_one q f ds)"

fun delete_one :: "('a \<Rightarrow> bool) \<Rightarrow> 'a list \<Rightarrow> 'a list \<times> nat" where
  "delete_one q [] = ([], 0)"
| "delete_one q (d # ds) =
     (if q d then (ds, 1) else (d # fst (delete_one q ds), snd (delete_one q ds)))"

definition delete_many :: "('a \<Rightarrow> bool) \<Rightarrow> 'a list \<Rightarrow> 'a list" where
  "delete_many q c = filter (\<lambda>d. \<not> q d) c"

text \<open>
  \<^verbatim>\<open>find(query).sort("created_at", -1).to_list(n)\<close>: the matching documents, sorted
  by the key in descending order (documents with equal keys keep their stored order),
  cut after the first \<open>n\<close>.
\<close>

definition find_many :: "('a \<Rightarrow> bool) \<Rightarrow> 'a list \<Rightarrow> 'a list" where
  "find_many q c = filter q c"

definition sort_desc :: "('a \<Rightarrow> instant) \<Rightarrow> 'a list \<Rightarrow> 'a list" where
  "sort_desc k ds = sort_key (\<lambda>d. - k d) ds"

definition to_list :: "nat \<Rightarrow> 'a list \<Rightarrow> 'a list" where
  "to_list n ds = take n ds"

subsection \<open>Password hashing\<close>

text \<open>
  \<^verbatim>\<open>pwd_context\<close> is a \<^verbatim>\<open>CryptContext\<close> of the passlib library. The module
  only delegates to its \<^verbatim>\<open>hash\<close> and \<^verbatim>\<open>verify\<close>; the context is a parameter
  here, its hash function taking the salt it draws.
\<close>

record CryptContext =
  ctx_hash :: "string \<Rightarrow> string \<Rightarrow> string"
  ctx_verify :: "string \<Rightarrow> string \<Rightarrow> bool"

record globals =
  SECRET_KEY :: string
  pwd_context :: CryptContext

definition ALGORITHM :: string where
  "ALGORITHM = ''HS256''"

definition hash_password :: "globals \<Rightarrow> string \<Rightarrow> string \<Rightarrow> string" where
  "hash_password g salt password = ctx_hash (pwd_context g) salt password"

definition verify_password :: "globals \<Rightarrow> string \<Rightarrow> string \<Rightarrow> bool" where
  "verify_password g plain_password hashed_password =
     ctx_verify (pwd_context g) plain_password hashed_password"

subsection \<open>Tokens\<close>

text \<open>
  \<^verbatim>\<open>import jwt\<close> binds the PyJWT library, which is not part of the repository:
  the functions \<^verbatim>\<open>jwt.encode\<close> and \<^verbatim>\<open>jwt.decode\<close> and the class
  \<^verbatim>\<open>jwt.ExpiredSignatureError\<close> that the module uses are PyJWT's.
  Its tokens are modelled symbolically: a token is either a string that does not parse
  into three segments, or a header algorithm, a payload and a signature; the signature
  of a payload is the term \<open>HMAC alg key payload\<close>, so that two signatures agree
  only when algorithm, key and payload do. Payloads carry the claims the module uses,
  \<^verbatim>\<open>sub\<close> and \<^verbatim>\<open>exp\<close>. \<^verbatim>\<open>jwt.encode\<close> stores a datetime claim as whole
  seconds since the epoch; \<^verbatim>\<open>jwt.decode\<close> checks the algorithm, then the signature,
  then the expiry: the token is expired when the integer \<^verbatim>\<open>exp\<close> is at most the
  floating-point clock reading, a comparison that Python makes exactly. How the reading
  rounds the instant at which it is taken is not part of the model: the reading itself
  is the argument.
\<close>

record payload =
  claim_sub :: "string option"
  claim_exp :: "int option"

datatype signature = HMAC string string payload

datatype token =
    Garbled string
  | JWT (tok_alg: string) (tok_payload: payload) (tok_signature: signature)

definition jwt_encode :: "payload \<Rightarrow> string \<Rightarrow> string \<Rightarrow> token" where
  "jwt_encode p key algorithm = JWT algorithm p (HMAC algorithm key p)"

definition jwt_decode :: "token \<Rightarrow> string \<Rightarrow> string list \<Rightarrow> real \<Rightarrow> exn + payload" where
  "jwt_decode t key algorithms clock =
     (case t of
        Garbled s \<Rightarrow> Inl DecodeError
      | JWT alg p s \<Rightarrow>
          if alg \<notin> set algorithms then Inl InvalidAlgorithmError
          else if s \<noteq> HMAC alg key p then Inl InvalidSignatureError
          else (case claim_exp p of
                  None \<Rightarrow> Inr p
                | Some e \<Rightarrow> if real_of_int e \<le> clock then Inl ExpiredSignatureError else Inr p))"

text \<open>
  The exception classes that the module \<^verbatim>\<open>jwt\<close> exports, each with the exceptions
  of the model that are its instances (\<^verbatim>\<open>InvalidSignatureError\<close> is a subclass of
  \<^verbatim>\<open>DecodeError\<close>, and all are subclasses of \<^verbatim>\<open>InvalidTokenError\<close> and
  \<^verbatim>\<open>PyJWTError\<close>). An \<^verbatim>\<open>except jwt.NAME:\<close> clause looks \<^verbatim>\<open>NAME\<close> up in the
  module when an exception reaches it; a name the module does not have raises
  \<^verbatim>\<open>AttributeError\<close> there. PyJWT has no \<^verbatim>\<open>JWTError\<close>: that is the base
  class of the python-jose library, whose module is \<^verbatim>\<open>jose\<close>.
\<close>

definition jwt_exceptions :: "(string \<times> exn list) list" where
  "jwt_exceptions =
     [(''ExpiredSignatureError'', [ExpiredSignatureError]),
      (''InvalidSignatureError'', [InvalidSignatureError]),
      (''InvalidAlgorithmError'', [InvalidAlgorithmError]),
      (''DecodeError'', [DecodeError, InvalidSignatureError]),
      (''InvalidTokenError'',
         [ExpiredSignatureError, InvalidSignatureError, InvalidAlgorithmError, DecodeError]),
      (''PyJWTError'',
         [ExpiredSignatureError, InvalidSignatureError, InvalidAlgorithmError, DecodeError])]"

definition jwt_getattr :: "string \<Rightarrow> exn + exn list" where
  "jwt_getattr name =
     (case map_of jwt_exceptions name of
        None \<Rightarrow> Inl (AttributeError name)
      | Some instances \<Rightarrow> Inr instances)"

definition create_access_token :: "globals \<Rightarrow> instant \<Rightarrow> string \<Rightarrow> token" where
  "create_access_token g now subject =
     (let expire = now + 30 * 86400 * 1000000
      in jwt_encode \<lparr>claim_sub = Some subject, claim_exp = Some (expire div 1000000)\<rparr>
           (SECRET_KEY g) ALGORITHM)"

text \<open>The body of the \<^verbatim>\<open>try\<close> statement of \<^verbatim>\<open>get_current_user\<close>.\<close>

definition get_current_user_try :: "globals \<Rightarrow> db \<Rightarrow> real \<Rightarrow> token \<Rightarrow> exn + user_doc" where
  "get_current_user_try g d clock t =
     (case jwt_decode t (SECRET_KEY g) [ALGORITHM] clock of
        Inl e \<Rightarrow> Inl e
      | Inr p \<Rightarrow>
          (case claim_sub p of
             None \<Rightarrow> Inl (HTTPException 401 ''Invalid authentication'')
           | Some user_id \<Rightarrow>
               (case find_one (\<lambda>u. u_id u = user_id) (users d) of
                  None \<Rightarrow> Inl (HTTPException 401 ''User not found'')
                | Some user \<Rightarrow> Inr user)))"

text \<open>
  The statement with its two \<^verbatim>\<open>except\<close> clauses, tried in order for an exception
  of the body: \<^verbatim>\<open>jwt.ExpiredSignatureError\<close>, then \<^verbatim>\<open>jwt.JWTError\<close>. An
  exception that matches neither class propagates.
\<close>

definition get_current_user :: "globals \<Rightarrow> db \<Rightarrow> real \<Rightarrow> token \<Rightarrow> exn + user_doc" where
  "get_current_user g d clock t =
     (case get_current_user_try g d clock t of
        Inr user \<Rightarrow> Inr user
      | Inl e \<Rightarrow>
          (case jwt_getattr ''ExpiredSignatureError'' of
             Inl err \<Rightarrow> Inl err
           | Inr expired \<Rightarrow>
               if e \<in> set expired then Inl (HTTPException 401 ''Token expired'')
               else (case jwt_getattr ''JWTError'' of
                       Inl err \<Rightarrow> Inl err
                     | Inr invalid \<Rightarrow>
                         if e \<in> set invalid then Inl (HTTPException 401 ''Invalid token'')
                         else Inl e)))"

subsection \<open>Auth routes\<close>

record user_public =
  pub_id :: string
  pub_username :: string
  pub_email :: string
  pub_bio :: "string option"
  pub_avatar :: "string option"

record auth_response =
  resp_token :: token
  resp_user :: user_public

definition register ::
  "globals \<Rightarrow> db \<Rightarrow> instant \<Rightarrow> string \<Rightarrow> string \<Rightarrow> UserRegister \<Rightarrow> (exn + auth_response) \<times> db" where
  "register g d now new_id salt user_data =
     (case find_one (\<lambda>u. u_email u = ur_email user_data \<or> u_username u = ur_username user_data)
             (users d) of
        Some existing_user \<Rightarrow> (Inl (HTTPException 400 ''User already exists''), d)
      | None \<Rightarrow>
          (let user_dict = \<lparr>u_id = new_id, u_username = ur_username user_data,
                 u_email = ur_email user_data, u_bio = Some [], u_avatar = Some [],
                 u_created_at = now,
                 u_password_hash = hash_password g salt (ur_password user_data)\<rparr>;
               d' = d\<lparr>users := insert_one user_dict (users d)\<rparr>;
               token = create_access_token g now new_id
           in (Inr \<lparr>resp_token = token,
                    resp_user = \<lparr>pub_id = new_id, pub_username = ur_username user_data,
                      pub_email = ur_email user_data, pub_bio = Some [],
                      pub_avatar = Some []\<rparr>\<rparr>, d')))"

definition login :: "globals \<Rightarrow> db \<Rightarrow> instant \<Rightarrow> UserLogin \<Rightarrow> (exn + auth_response) \<times> db" where
  "login g d now credentials =
     (case find_one (\<lambda>u. u_email u = ul_email credentials) (users d) of
        None \<Rightarrow> (Inl (HTTPException 401 ''Invalid credentials''), d)
      | Some user \<Rightarrow>
          if \<not> verify_password g (ul_password credentials) (u_password_hash user)
          then (Inl (HTTPException 401 ''Invalid credentials''), d)
          else (Inr \<lparr>resp_token = create_access_token g now (u_id user),
                     resp_user = \<lparr>pub_id = u_id user, pub_username = u_username user,
                       pub_email = u_email user, pub_bio = u_bio user,
                       pub_avatar = u_avatar user\<rparr>\<rparr>, d))"


subsection \<open>Article routes\<close>

text \<open>
  The query that \<^verbatim>\<open>get_articles\<close> builds: a condition on \<^verbatim>\<open>tags\<close> (an array
  field matches a value that is one of its elements) when \<^verbatim>\<open>tag\<close> is true in
  Python's sense (neither \<^verbatim>\<open>None\<close> nor the empty string), one on
  \<^verbatim>\<open>author_username\<close> when \<^verbatim>\<open>author\<close> is.
\<close>

definition articles_query :: "string option \<Rightarrow> string option \<Rightarrow> Article \<Rightarrow> bool" where
  "articles_query tag author a =
     ((case tag of
         None \<Rightarrow> True
       | Some t \<Rightarrow> if t \<noteq> [] then t \<in> set (a_tags a) else True) \<and>
      (case author of
         None \<Rightarrow> True
       | Some n \<Rightarrow> if n \<noteq> [] then a_author_username a = Some n else True))"

definition get_articles :: "db \<Rightarrow> string option \<Rightarrow> string option \<Rightarrow> Article list" where
  "get_articles d tag author =
     to_list 1000 (sort_desc a_created_at (find_many (articles_query tag author) (articles d)))"


definition create_article ::
  "db \<Rightarrow> instant \<Rightarrow> string \<Rightarrow> ArticleCreate \<Rightarrow> user_doc \<Rightarrow> (exn + Article) \<times> db" where
  "create_article d now new_id article_data current_user =
     (let article = \<lparr>a_id = new_id, a_author_id = u_id current_user,
            a_author_username = Some (u_username current_user),
            a_title = ac_title article_data, a_content = ac_content article_data,
            a_tags = ac_tags article_data, a_cover_image = ac_cover_image article_data,
            a_likes_count = 0, a_comments_count = 0,
            a_created_at = now, a_updated_at = now\<rparr>
      in (Inr article, d\<lparr>articles := insert_one article (articles d)\<rparr>))"

text \<open>
  \<^verbatim>\<open>update_data\<close>: the fields of the patch that are not \<^verbatim>\<open>None\<close>, and
  \<^verbatim>\<open>updated_at\<close>; \<^verbatim>\<open>$set\<close> overwrites exactly these fields of the document.
\<close>

definition set_update_data :: "ArticleUpdate \<Rightarrow> instant \<Rightarrow> Article \<Rightarrow> Article" where
  "set_update_data article_data now a =
     a\<lparr>a_title := (case au_title article_data of None \<Rightarrow> a_title a | Some v \<Rightarrow> v),
       a_content := (case au_content article_data of None \<Rightarrow> a_content a | Some v \<Rightarrow> v),
       a_tags := (case au_tags article_data of None \<Rightarrow> a_tags a | Some v \<Rightarrow> v),
       a_cover_image :=
         (case au_cover_image article_data of None \<Rightarrow> a_cover_image a | Some v \<Rightarrow> Some v),
       a_updated_at := now\<rparr>"

definition update_article ::
  "db \<Rightarrow> instant \<Rightarrow> string \<Rightarrow> ArticleUpdate \<Rightarrow> user_doc \<Rightarrow> (exn + Article) \<times> db" where
  "update_article d now article_id article_data current_user =
     (case find_one (\<lambda>a. a_id a = article_id) (articles d) of
        None \<Rightarrow> (Inl (HTTPException 404 ''Article not found''), d)
      | Some article \<Rightarrow>
          if a_author_id article \<noteq> u_id current_user
          then (Inl (HTTPException 403 ''Not authorized''), d)
          else
            (let d' = d\<lparr>articles := update_one (\<lambda>a. a_id a = article_id)
                          (set_update_data article_data now) (articles d)\<rparr>
             in (case find_one (\<lambda>a. a_id a = article_id) (articles d') of
                   None \<Rightarrow> (Inl (TypeError ''NoneType''), d')
                 | Some updated_article \<Rightarrow> (Inr updated_article, d'))))"

definition delete_article :: "db \<Rightarrow> string \<Rightarrow> user_doc \<Rightarrow> (exn + string) \<times> db" where
  "delete_article d article_id current_user =
     (case find_one (\<lambda>a. a_id a = article_id) (articles d) of
        None \<Rightarrow> (Inl (HTTPException 404 ''Article not found''), d)
      | Some article \<Rightarrow>
          if a_author_id article \<noteq> u_id current_user
          then (Inl (HTTPException 403 ''Not authorized''), d)
          else (Inr ''Article deleted'',
                d\<lparr>articles := fst (delete_one (\<lambda>a. a_id a = article_id) (articles d)),
                  comments := delete_many (\<lambda>c. c_article_id c = article_id) (comments d),
                  likes := delete_many (\<lambda>l. l_article_id l = article_id) (likes d)\<rparr>))"

subsection \<open>Like routes\<close>

definition inc_likes_count :: "int \<Rightarrow> Article \<Rightarrow> Article" where
  "inc_likes_count n a = a\<lparr>a_likes_count := a_likes_count a + n\<rparr>"

definition like_article :: "db \<Rightarrow> instant \<Rightarrow> string \<Rightarrow> string \<Rightarrow> user_doc \<Rightarrow> (exn + string) \<times> db" where
  "like_article d now new_id article_id current_user =
     (case find_one (\<lambda>a. a_id a = article_id) (articles d) of
        None \<Rightarrow> (Inl (HTTPException 404 ''Article not found''), d)
      | Some article \<Rightarrow>
          (case find_one (\<lambda>l. l_article_id l = article_id \<and> l_user_id l = u_id current_user)
                  (likes d) of
             Some existing_like \<Rightarrow> (Inr ''Already liked'', d)
           | None \<Rightarrow>
               (let like = \<lparr>l_id = new_id, l_article_id = article_id,
                      l_user_id = u_id current_user, l_created_at = now\<rparr>
                in (Inr ''Liked'',
                    d\<lparr>likes := insert_one like (likes d),
                      articles := update_one (\<lambda>a. a_id a = article_id) (inc_likes_count 1)
                                    (articles d)\<rparr>))))"

definition unlike_article :: "db \<Rightarrow> string \<Rightarrow> user_doc \<Rightarrow> (exn + string) \<times> db" where
  "unlike_article d article_id current_user =
     (let result = delete_one
            (\<lambda>l. l_article_id l = article_id \<and> l_user_id l = u_id current_user) (likes d);
          d' = d\<lparr>likes := fst result\<rparr>
      in if snd result > 0
         then (Inr ''Unliked'',
               d'\<lparr>articles := update_one (\<lambda>a. a_id a = article_id) (inc_likes_count (- 1))
                                (articles d')\<rparr>)
         else (Inl (HTTPException 404 ''Like not found''), d'))"


subsection \<open>Comment routes\<close>

definition inc_comments_count :: "int \<Rightarrow> Article \<Rightarrow> Article" where
  "inc_comments_count n a = a\<lparr>a_comments_count := a_comments_count a + n\<rparr>"

definition get_comments :: "db \<Rightarrow> string \<Rightarrow> Comment list" where
  "get_comments d article_id =
     to_list 1000 (sort_desc c_created_at
       (find_many (\<lambda>c. c_article_id c = article_id) (comments d)))"

definition create_comment ::
  "db \<Rightarrow> instant \<Rightarrow> string \<Rightarrow> string \<Rightarrow> string \<Rightarrow> user_doc \<Rightarrow> (exn + Comment) \<times> db" where
  "create_comment d now new_id article_id content current_user =
     (case find_one (\<lambda>a. a_id a = article_id) (articles d) of
        None \<Rightarrow> (Inl (HTTPException 404 ''Article not found''), d)
      | Some article \<Rightarrow>
          (let comment = \<lparr>c_id = new_id, c_article_id = article_id,
                 c_user_id = u_id current_user, c_username = Some (u_username current_user),
                 c_content = content, c_created_at = now\<rparr>
           in (Inr comment,
               d\<lparr>comments := insert_one comment (comments d),
                 articles := update_one (\<lambda>a. a_id a = article_id) (inc_comments_count 1)
                               (articles d)\<rparr>)))"

subsection \<open>User profile routes\<close>

text \<open>The user document under the projection that leaves \<^verbatim>\<open>password_hash\<close> out.\<close>

record user_view =
  v_id :: string
  v_username :: string
  v_email :: string
  v_bio :: "string option"
  v_avatar :: "string option"
  v_created_at :: instant

record profile =
  profile_user :: user_view
  profile_articles :: "Article list"

definition without_password_hash :: "user_doc \<Rightarrow> user_view" where
  "without_password_hash u =
     \<lparr>v_id = u_id u, v_username = u_username u, v_email = u_email u, v_bio = u_bio u,
      v_avatar = u_avatar u, v_created_at = u_created_at u\<rparr>"

definition get_user_profile :: "db \<Rightarrow> string \<Rightarrow> exn + profile" where
  "get_user_profile d username =
     (case find_one (\<lambda>u. u_username u = username) (users d) of
        None \<Rightarrow> Inl (HTTPException 404 ''User not found'')
      | Some user \<Rightarrow>
          Inr \<lparr>profile_user = without_password_hash user,
               profile_articles =
                 to_list 100 (sort_desc a_created_at
                   (find_many (\<lambda>a. a_author_username a = Some username) (articles d)))\<rparr>)"

section \<open>Notions of the properties\<close>

text \<open>An article carries a tag when the tag is an element of its list of tags.\<close>

definition has_tag :: "string \<Rightarrow> Article \<Rightarrow> bool" where
  "has_tag X a = (X \<in> set (a_tags a))"

text \<open>The \<^verbatim>\<open>likes_count\<close> of the article that a lookup by id finds.\<close>

definition likes_count_of :: "db \<Rightarrow> string \<Rightarrow> int option" where
  "likes_count_of d article_id =
     map_option a_likes_count (find_one (\<lambda>a. a_id a = article_id) (articles d))"

text \<open>The likes and the comments that refer to an article id.\<close>

definition likes_of :: "db \<Rightarrow> string \<Rightarrow> Like list" where
  "likes_of d article_id = filter (\<lambda>l. l_article_id l = article_id) (likes d)"

definition comments_of :: "db \<Rightarrow> string \<Rightarrow> Comment list" where
  "comments_of d article_id = filter (\<lambda>c. c_article_id c = article_id) (comments d)"

text \<open>Every stored article's counters equal the numbers of records that refer to it.\<close>

definition counters_consistent :: "db \<Rightarrow> bool" where
  "counters_consistent d =
     (\<forall>a\<in>set (articles d).
        a_likes_count a = int (length (likes_of d (a_id a))) \<and>
        a_comments_count a = int (length (comments_of d (a_id a))))"

text \<open>
  The invariant that the handlers keep: the stored articles have distinct ids, every like
  and comment refers to a stored article, and the counters are consistent.
\<close>

definition well_formed :: "db \<Rightarrow> bool" where
  "well_formed d =
     (distinct (map a_id (articles d)) \<and>
      (\<forall>l\<in>set (likes d). l_article_id l \<in> a_id ` set (articles d)) \<and>
      (\<forall>c\<in>set (comments d). c_article_id c \<in> a_id ` set (articles d)) \<and>
      counters_consistent d)"

text \<open>
  The databases that sequences of handler calls reach from the empty database. The
  arguments of each call are arbitrary, the acting user included; the id that
  \<^verbatim>\<open>uuid.uuid4()\<close> gives a new article is one that no stored article has.
\<close>

inductive reachable :: "globals \<Rightarrow> db \<Rightarrow> bool" for g :: globals where
  initial: "reachable g empty_db"
| registered: "reachable g d \<Longrightarrow> reachable g (snd (register g d now new_id salt user_data))"
| logged_in: "reachable g d \<Longrightarrow> reachable g (snd (login g d now credentials))"
| article_created:
    "reachable g d \<Longrightarrow> new_id \<notin> a_id ` set (articles d) \<Longrightarrow>
     reachable g (snd (create_article d now new_id article_data current_user))"
| article_updated:
    "reachable g d \<Longrightarrow>
     reachable g (snd (update_article d now article_id article_data current_user))"
| article_deleted:
    "reachable g d \<Longrightarrow> reachable g (snd (delete_article d article_id current_user))"
| liked:
    "reachable g d \<Longrightarrow> reachable g (snd (like_article d now new_id article_id current_user))"
| unliked:
    "reachable g d \<Longrightarrow> reachable g (snd (unlike_article d article_id current_user))"
| commented:
    "reachable g d \<Longrightarrow>
     reachable g (snd (create_comment d now new_id article_id content current_user))"

text \<open>A token's embedded expiry, in whole seconds since the epoch, when it has one.\<close>

definition expiry_of :: "token \<Rightarrow> int option" where
  "expiry_of t = (case t of Garbled s \<Rightarrow> None | JWT alg p s \<Rightarrow> claim_exp p)"



section \<open>Sample data\<close>

text \<open>
  Concrete inputs at which the theorems below are evaluated. First a small database: two
  users, an article of alice, and a comment and a like of bob on it.
\<close>

definition alice :: user_doc where
  "alice = \<lparr>u_id = ''u1'', u_username = ''alice'', u_email = ''alice@example.org'',
     u_bio = Some [], u_avatar = Some [], u_created_at = 10, u_password_hash = ''h1''\<rparr>"

definition bob :: user_doc where
  "bob = \<lparr>u_id = ''u2'', u_username = ''bob'', u_email = ''bob@example.org'',
     u_bio = Some [], u_avatar = Some [], u_created_at = 20, u_password_hash = ''h2''\<rparr>"

definition post1 :: Article where
  "post1 = \<lparr>a_id = ''a1'', a_author_id = ''u1'', a_author_username = Some ''alice'',
     a_title = ''Hello'', a_content = ''First post'', a_tags = [''intro''],
     a_cover_image = Some [], a_likes_count = 1, a_comments_count = 1,
     a_created_at = 30, a_updated_at = 30\<rparr>"

definition comment1 :: Comment where
  "comment1 = \<lparr>c_id = ''c1'', c_article_id = ''a1'', c_user_id = ''u2'',
     c_username = Some ''bob'', c_content = ''Nice'', c_created_at = 40\<rparr>"

definition like1 :: Like where
  "like1 = \<lparr>l_id = ''l1'', l_article_id = ''a1'', l_user_id = ''u2'', l_created_at = 50\<rparr>"

definition sample_db :: db where
  "sample_db = \<lparr>users = [alice, bob], articles = [post1], comments = [comment1],
     likes = [like1]\<rparr>"

text \<open>A patch that gives a title only.\<close>

definition retitle :: ArticleUpdate where
  "retitle = \<lparr>au_title = Some ''Hello again'', au_content = None, au_tags = None,
     au_cover_image = None\<rparr>"

lemmas sample_defs = sample_db_def alice_def bob_def post1_def comment1_def like1_def retitle_def

text \<open>A database with 1001 articles of one author that all carry the same tag.\<close>

definition numbered_article :: "nat \<Rightarrow> Article" where
  "numbered_article i = \<lparr>a_id = replicate i CHR ''a'', a_author_id = ''u1'',
     a_author_username = Some ''alice'', a_title = ''Note'', a_content = [],
     a_tags = [''intro''], a_cover_image = Some [], a_likes_count = 0,
     a_comments_count = 0, a_created_at = int i, a_updated_at = int i\<rparr>"

definition crowded_db :: db where
  "crowded_db = \<lparr>users = [alice], articles = map numbered_article [0..<1001],
     comments = [], likes = []\<rparr>"

text \<open>
  Module globals: the key that the module falls back to, and a stand-in for the password
  context that appends the password to the salt.
\<close>

definition plain_context :: CryptContext where
  "plain_context = \<lparr>ctx_hash = (\<lambda>salt secret. salt @ secret),
     ctx_verify = (\<lambda>secret hash. drop (length hash - length secret) hash = secret)\<rparr>"

definition sample_globals :: globals where
  "sample_globals = \<lparr>SECRET_KEY = ''anyrite-secret-key-pixel-blog-2025'',
     pwd_context = plain_context\<rparr>"

text \<open>
  The sample article as a request body, and the database after alice creates it and bob
  likes it and comments on it.
\<close>

definition draft :: ArticleCreate where
  "draft = \<lparr>ac_title = ''Hello'', ac_content = ''First post'', ac_tags = [''intro''],
     ac_cover_image = Some []\<rparr>"

definition played_db :: db where
  "played_db =
     snd (create_comment
       (snd (like_article (snd (create_article empty_db 30 ''a1'' draft alice)) 50 ''l1'' ''a1'' bob))
       40 ''c1'' ''a1'' ''Nice'' bob)"

text \<open>Registration requests: a new user, and one with the email of a stored user.\<close>

definition carol_request :: UserRegister where
  "carol_request = \<lparr>ur_username = ''carol'', ur_email = ''carol@example.org'',
     ur_password = ''3''\<rparr>"

definition alice_again :: UserRegister where
  "alice_again = \<lparr>ur_username = ''alice2'', ur_email = ''alice@example.org'',
     ur_password = ''4''\<rparr>"



section \<open>Properties\<close>

subsection \<open>Collections\<close>

lemma find_one_SomeD: "find_one q c = Some x \<Longrightarrow> q x \<and> x \<in> set c"
  by (auto simp: find_one_def find_Some_iff)

lemma find_one_None_iff: "find_one q c = None \<longleftrightarrow> (\<forall>x\<in>set c. \<not> q x)"
  by (auto simp: find_one_def find_None_iff)

lemma find_one_split:
  "find_one q c = Some x \<Longrightarrow> \<exists>pre post. c = pre @ x # post \<and> (\<forall>y\<in>set pre. \<not> q y) \<and> q x"
  unfolding find_one_def
proof (induction c)
  case Nil
  then show ?case by simp
next
  case (Cons d ds)
  show ?case
  proof (cases "q d")
    case True
    with Cons.prems have "d = x" by simp
    with True show ?thesis by (intro exI[of _ "[]"] exI[of _ ds]) simp
  next
    case False
    with Cons.prems have "find q ds = Some x" by simp
    from Cons.IH[OF this] obtain pre post
      where "ds = pre @ x # post" "\<forall>y\<in>set pre. \<not> q y" "q x" by blast
    with False show ?thesis by (intro exI[of _ "d # pre"] exI[of _ post]) simp
  qed
qed

lemma update_one_split:
  "(\<forall>y\<in>set pre. \<not> q y) \<Longrightarrow> q x \<Longrightarrow> update_one q f (pre @ x # post) = pre @ f x # post"
  by (induction pre) auto

lemma find_one_append_first:
  "(\<forall>y\<in>set pre. \<not> q y) \<Longrightarrow> q x \<Longrightarrow> find_one q (pre @ x # post) = Some x"
  by (induction pre) (auto simp: find_one_def)

lemma delete_one_split:
  "(\<forall>y\<in>set pre. \<not> q y) \<Longrightarrow> q x \<Longrightarrow> delete_one q (pre @ x # post) = (pre @ post, 1)"
  by (induction pre) auto

lemma delete_one_no_match: "(\<forall>x\<in>set c. \<not> q x) \<Longrightarrow> delete_one q c = (c, 0)"
  by (induction c) auto

lemma filter_delete_many: "filter q (delete_many q c) = []"
  by (induction c) (auto simp: delete_many_def)

lemma length_to_list: "length (to_list n ds) = min n (length ds)"
  by (simp add: to_list_def min.commute)

lemma mset_sort_desc: "mset (sort_desc k ds) = mset ds"
  by (simp add: sort_desc_def)

lemma length_sort_desc: "length (sort_desc k ds) = length ds"
  by (simp add: sort_desc_def)

lemma sorted_sort_desc: "sorted_wrt (\<lambda>a b. k b \<le> k a) (sort_desc k ds)"
proof -
  have "sorted (map (\<lambda>d. - k d) (sort_desc k ds))"
    unfolding sort_desc_def by (rule sorted_sort_key)
  then show ?thesis
    by (simp add: sorted_map sorted_wrt_iff_nth_less) 
qed

lemma find_one_update_one:
  assumes "find_one q c = Some x" and "q (f x)"
  shows "find_one q (update_one q f c) = Some (f x)"
proof -
  from find_one_split[OF assms(1)] obtain pre post
    where c: "c = pre @ x # post" and pre: "\<forall>y\<in>set pre. \<not> q y" and x: "q x" by blast
  have "update_one q f c = pre @ f x # post"
    unfolding c using pre x by (rule update_one_split)
  with pre assms(2) show ?thesis by (simp add: find_one_append_first)
qed

lemma a_id_set_update_data: "a_id (set_update_data article_data now a) = a_id a"
  by (simp add: set_update_data_def)

subsection \<open>Ownership of articles\<close>

text \<open>
  Claim C1. Let an article with the given id be stored, \<open>article\<close> being the document
  that the handlers find. For an actor whose id differs from the article's
  \<^verbatim>\<open>author_id\<close>, \<open>update_article\<close> and \<open>delete_article\<close> raise the 403
  exception "Not authorized" and return the database as it was. For the author, both
  succeed. The article is the first of the collection with its id; \<open>update_article\<close>
  returns the patched document and stores it in the article's place, leaving the rest of
  the database as it was; \<open>delete_article\<close> removes the article from the collection
  and, from the comments and the likes, exactly the records that refer to the article's
  id, so that the database it leaves holds no comment and no like that refers to it.
\<close>

theorem only_author_updates_or_deletes:
  assumes "find_one (\<lambda>a. a_id a = article_id) (articles d) = Some article"
  shows "(a_author_id article \<noteq> u_id current_user \<longrightarrow>
            update_article d now article_id article_data current_user
              = (Inl (HTTPException 403 ''Not authorized''), d) \<and>
            delete_article d article_id current_user
              = (Inl (HTTPException 403 ''Not authorized''), d)) \<and>
         (a_author_id article = u_id current_user \<longrightarrow>
            fst (update_article d now article_id article_data current_user)
              = Inr (set_update_data article_data now article) \<and>
            fst (delete_article d article_id current_user) = Inr ''Article deleted'' \<and>
            filter (\<lambda>c. c_article_id c = article_id)
              (comments (snd (delete_article d article_id current_user))) = [] \<and>
            filter (\<lambda>l. l_article_id l = article_id)
              (likes (snd (delete_article d article_id current_user))) = [] \<and>
            (\<exists>pre post.
               articles d = pre @ article # post \<and>
               (\<forall>a\<in>set pre. a_id a \<noteq> article_id) \<and>
               snd (update_article d now article_id article_data current_user)
                 = d\<lparr>articles := pre @ set_update_data article_data now article # post\<rparr> \<and>
               snd (delete_article d article_id current_user)
                 = d\<lparr>articles := pre @ post,
                     comments := filter (\<lambda>c. c_article_id c \<noteq> article_id) (comments d),
                     likes := filter (\<lambda>l. l_article_id l \<noteq> article_id) (likes d)\<rparr>))"
proof -
  let ?q = "\<lambda>a. a_id a = article_id"
  let ?f = "set_update_data article_data now"
  from find_one_split[OF assms] obtain pre post
    where c: "articles d = pre @ article # post"
      and pre: "\<forall>y\<in>set pre. \<not> ?q y" and x: "?q article" by blast
  have upd: "update_one ?q ?f (articles d) = pre @ ?f article # post"
    unfolding c using pre x by (rule update_one_split)
  have "?q (?f article)" using x by (simp add: a_id_set_update_data)
  with pre have found: "find_one ?q (pre @ ?f article # post) = Some (?f article)"
    by (simp add: find_one_append_first)
  have del: "delete_one ?q (articles d) = (pre @ post, 1)"
    unfolding c using pre x by (rule delete_one_split)
  have forbidden: "update_article d now article_id article_data current_user
        = (Inl (HTTPException 403 ''Not authorized''), d) \<and>
      delete_article d article_id current_user
        = (Inl (HTTPException 403 ''Not authorized''), d)"
    if "a_author_id article \<noteq> u_id current_user"
    using assms that by (simp add: update_article_def delete_article_def)
  have updated: "update_article d now article_id article_data current_user
      = (Inr (?f article), d\<lparr>articles := pre @ ?f article # post\<rparr>)"
    if "a_author_id article = u_id current_user"
    using assms that upd found by (simp add: update_article_def)
  have deleted: "delete_article d article_id current_user
      = (Inr ''Article deleted'',
         d\<lparr>articles := pre @ post,
           comments := filter (\<lambda>c. c_article_id c \<noteq> article_id) (comments d),
           likes := filter (\<lambda>l. l_article_id l \<noteq> article_id) (likes d)\<rparr>)"
    if "a_author_id article = u_id current_user"
    using assms that del by (simp add: delete_article_def delete_many_def)
  have allowed: "fst (update_article d now article_id article_data current_user)
        = Inr (?f article) \<and>
      fst (delete_article d article_id current_user) = Inr ''Article deleted'' \<and>
      filter (\<lambda>c. c_article_id c = article_id)
        (comments (snd (delete_article d article_id current_user))) = [] \<and>
      filter (\<lambda>l. l_article_id l = article_id)
        (likes (snd (delete_article d article_id current_user))) = [] \<and>
      (\<exists>pre post.
         articles d = pre @ article # post \<and>
         (\<forall>a\<in>set pre. a_id a \<noteq> article_id) \<and>
         snd (update_article d now article_id article_data current_user)
           = d\<lparr>articles := pre @ ?f article # post\<rparr> \<and>
         snd (delete_article d article_id current_user)
           = d\<lparr>articles := pre @ post,
               comments := filter (\<lambda>c. c_article_id c \<noteq> article_id) (comments d),
               likes := filter (\<lambda>l. l_article_id l \<noteq> article_id) (likes d)\<rparr>)"
    if author: "a_author_id article = u_id current_user"
  proof (intro conjI)
    show "\<exists>pre post.
         articles d = pre @ article # post \<and>
         (\<forall>a\<in>set pre. a_id a \<noteq> article_id) \<and>
         snd (update_article d now article_id article_data current_user)
           = d\<lparr>articles := pre @ ?f article # post\<rparr> \<and>
         snd (delete_article d article_id current_user)
           = d\<lparr>articles := pre @ post,
               comments := filter (\<lambda>c. c_article_id c \<noteq> article_id) (comments d),
               likes := filter (\<lambda>l. l_article_id l \<noteq> article_id) (likes d)\<rparr>"
      using c pre updated[OF author] deleted[OF author]
      by (intro exI[of _ pre] exI[of _ post]) simp
  qed (simp_all add: updated[OF author] deleted[OF author])
  from forbidden allowed show ?thesis by blast
qed

text \<open>
  The sample database: bob is refused; alice, the author, is not, and her update and her
  delete leave the databases stated.
\<close>

theorem only_author_updates_or_deletes_witness:
  "find_one (\<lambda>a. a_id a = ''a1'') (articles sample_db) = Some post1 \<and>
   a_author_id post1 \<noteq> u_id bob \<and>
   a_author_id post1 = u_id alice \<and>
   update_article sample_db 60 ''a1'' retitle bob
     = (Inl (HTTPException 403 ''Not authorized''), sample_db) \<and>
   delete_article sample_db ''a1'' bob = (Inl (HTTPException 403 ''Not authorized''), sample_db) \<and>
   update_article sample_db 60 ''a1'' retitle alice
     = (Inr (post1\<lparr>a_title := ''Hello again'', a_updated_at := 60\<rparr>),
        sample_db\<lparr>articles := [post1\<lparr>a_title := ''Hello again'', a_updated_at := 60\<rparr>]\<rparr>) \<and>
   delete_article sample_db ''a1'' alice
     = (Inr ''Article deleted'', sample_db\<lparr>articles := [], comments := [], likes := []\<rparr>)"
proof -
  have found: "find_one (\<lambda>a. a_id a = ''a1'') (articles sample_db) = Some post1"
    by (simp add: find_one_def sample_defs)
  have b: "a_author_id post1 \<noteq> u_id bob" and a: "a_author_id post1 = u_id alice"
    by (simp_all add: sample_defs)
  note guard = only_author_updates_or_deletes[OF found]
  from guard[of bob 60 retitle] b
  have forbidden: "update_article sample_db 60 ''a1'' retitle bob
        = (Inl (HTTPException 403 ''Not authorized''), sample_db)"
      "delete_article sample_db ''a1'' bob = (Inl (HTTPException 403 ''Not authorized''), sample_db)"
    by simp_all
  from guard[of alice 60 retitle] a obtain pre post
    where ok: "fst (update_article sample_db 60 ''a1'' retitle alice)
        = Inr (set_update_data retitle 60 post1)"
      "fst (delete_article sample_db ''a1'' alice) = Inr ''Article deleted''"
      and c: "articles sample_db = pre @ post1 # post"
      and stored: "snd (update_article sample_db 60 ''a1'' retitle alice)
        = sample_db\<lparr>articles := pre @ set_update_data retitle 60 post1 # post\<rparr>"
      "snd (delete_article sample_db ''a1'' alice)
        = sample_db\<lparr>articles := pre @ post,
            comments := filter (\<lambda>c. c_article_id c \<noteq> ''a1'') (comments sample_db),
            likes := filter (\<lambda>l. l_article_id l \<noteq> ''a1'') (likes sample_db)\<rparr>"
    by blast
  from c have ends: "pre = [] \<and> post = []"
    by (cases pre) (simp_all add: sample_db_def)
  have patched: "set_update_data retitle 60 post1
      = post1\<lparr>a_title := ''Hello again'', a_updated_at := 60\<rparr>"
    by (simp add: set_update_data_def sample_defs)
  have rest: "filter (\<lambda>c. c_article_id c \<noteq> ''a1'') (comments sample_db) = []"
    "filter (\<lambda>l. l_article_id l \<noteq> ''a1'') (likes sample_db) = []"
    by (simp_all add: sample_defs)
  have "update_article sample_db 60 ''a1'' retitle alice
      = (Inr (post1\<lparr>a_title := ''Hello again'', a_updated_at := 60\<rparr>),
         sample_db\<lparr>articles := [post1\<lparr>a_title := ''Hello again'', a_updated_at := 60\<rparr>]\<rparr>)"
    using ok(1) stored(1) ends patched by (simp add: prod_eq_iff)
  moreover have "delete_article sample_db ''a1'' alice
      = (Inr ''Article deleted'', sample_db\<lparr>articles := [], comments := [], likes := []\<rparr>)"
    using ok(2) stored(2) ends rest by (simp add: prod_eq_iff)
  ultimately show ?thesis using found a b forbidden by simp
qed

subsection \<open>The partial update\<close>

text \<open>
  Claim C8. For a stored article and its author, \<open>update_article\<close> succeeds with the
  updated document, which replaces the old one at its place in the collection; nothing
  else of the database changes. Of the updated document, \<^verbatim>\<open>title\<close>,
  \<^verbatim>\<open>content\<close>, \<^verbatim>\<open>tags\<close> and \<^verbatim>\<open>cover_image\<close> hold the patch's value where
  the patch gives one and the old value where it gives none, \<^verbatim>\<open>updated_at\<close> is the
  current time whatever the patch holds, and \<^verbatim>\<open>id\<close>, \<^verbatim>\<open>author_id\<close>,
  \<^verbatim>\<open>author_username\<close>, \<^verbatim>\<open>likes_count\<close>, \<^verbatim>\<open>comments_count\<close> and
  \<^verbatim>\<open>created_at\<close> are the old ones.
\<close>

theorem update_article_patch:
  assumes "find_one (\<lambda>a. a_id a = article_id) (articles d) = Some article"
    and "a_author_id article = u_id current_user"
  shows "\<exists>updated pre post.
     update_article d now article_id article_data current_user
       = (Inr updated, d\<lparr>articles := pre @ updated # post\<rparr>) \<and>
     articles d = pre @ article # post \<and>
     a_title updated = (case au_title article_data of None \<Rightarrow> a_title article | Some v \<Rightarrow> v) \<and>
     a_content updated
       = (case au_content article_data of None \<Rightarrow> a_content article | Some v \<Rightarrow> v) \<and>
     a_tags updated = (case au_tags article_data of None \<Rightarrow> a_tags article | Some v \<Rightarrow> v) \<and>
     a_cover_image updated
       = (case au_cover_image article_data of None \<Rightarrow> a_cover_image article | Some v \<Rightarrow> Some v) \<and>
     a_updated_at updated = now \<and>
     a_id updated = a_id article \<and>
     a_author_id updated = a_author_id article \<and>
     a_author_username updated = a_author_username article \<and>
     a_likes_count updated = a_likes_count article \<and>
     a_comments_count updated = a_comments_count article \<and>
     a_created_at updated = a_created_at article"
proof -
  let ?q = "\<lambda>a. a_id a = article_id"
  let ?f = "set_update_data article_data now"
  from find_one_split[OF assms(1)] obtain pre post
    where c: "articles d = pre @ article # post"
      and pre: "\<forall>y\<in>set pre. \<not> ?q y" and x: "?q article" by blast
  have upd: "update_one ?q ?f (articles d) = pre @ ?f article # post"
    unfolding c using pre x by (rule update_one_split)
  have "?q (?f article)" using x by (simp add: a_id_set_update_data)
  with pre have found: "find_one ?q (pre @ ?f article # post) = Some (?f article)"
    by (simp add: find_one_append_first)
  have run: "update_article d now article_id article_data current_user
      = (Inr (?f article), d\<lparr>articles := pre @ ?f article # post\<rparr>)"
    using assms upd found by (simp add: update_article_def)
  show ?thesis
    apply (rule exI[of _ "?f article"])
    apply (rule exI[of _ pre])
    apply (rule exI[of _ post])
    using run c by (simp add: set_update_data_def)
qed

text \<open>Alice gives her article a new title at time 60.\<close>

theorem update_article_patch_witness:
  "find_one (\<lambda>a. a_id a = ''a1'') (articles sample_db) = Some post1 \<and>
   a_author_id post1 = u_id alice \<and>
   update_article sample_db 60 ''a1'' retitle alice
     = (Inr (post1\<lparr>a_title := ''Hello again'', a_updated_at := 60\<rparr>),
        sample_db\<lparr>articles := [post1\<lparr>a_title := ''Hello again'', a_updated_at := 60\<rparr>]\<rparr>)"
proof -
  have found: "find_one (\<lambda>a. a_id a = ''a1'') (articles sample_db) = Some post1"
    by (simp add: find_one_def sample_defs)
  have a: "a_author_id post1 = u_id alice"
    by (simp add: sample_defs)
  from update_article_patch[OF found a, of 60 retitle] obtain updated pre post
    where run: "update_article sample_db 60 ''a1'' retitle alice
        = (Inr updated, sample_db\<lparr>articles := pre @ updated # post\<rparr>)"
      and c: "articles sample_db = pre @ post1 # post"
      and fields: "a_title updated = ''Hello again''" "a_content updated = a_content post1"
        "a_tags updated = a_tags post1" "a_cover_image updated = a_cover_image post1"
        "a_updated_at updated = 60" "a_id updated = a_id post1"
        "a_author_id updated = a_author_id post1"
        "a_author_username updated = a_author_username post1"
        "a_likes_count updated = a_likes_count post1"
        "a_comments_count updated = a_comments_count post1"
        "a_created_at updated = a_created_at post1"
    by (auto simp: retitle_def)
  from c have "pre = [] \<and> post = []"
    by (cases pre) (simp_all add: sample_db_def)
  moreover from fields have "updated = post1\<lparr>a_title := ''Hello again'', a_updated_at := 60\<rparr>"
    by (intro Article.equality) simp_all
  ultimately show ?thesis using run found a by simp
qed

lemma length_get_articles:
  "length (get_articles d tag author)
     = min 1000 (length (filter (articles_query tag author) (articles d)))"
  by (simp add: get_articles_def length_to_list length_sort_desc find_many_def)

subsection \<open>Listing\<close>

text \<open>
  Claim C10. \<open>get_articles\<close> returns at most 1000 articles and \<open>get_comments\<close>
  at most 1000 comments, and a profile that \<open>get_user_profile\<close> returns holds at
  most 100 articles: each list has the length of the matching documents cut at the bound,
  so that it is shorter than the matches whenever more than the bound match.
\<close>

theorem list_endpoints_truncate:
  "length (get_articles d tag author) \<le> 1000 \<and>
   length (get_articles d tag author)
     = min 1000 (length (filter (articles_query tag author) (articles d))) \<and>
   length (get_comments d article_id) \<le> 1000 \<and>
   length (get_comments d article_id)
     = min 1000 (length (filter (\<lambda>c. c_article_id c = article_id) (comments d))) \<and>
   (\<forall>p. get_user_profile d username = Inr p \<longrightarrow>
      length (profile_articles p) \<le> 100 \<and>
      length (profile_articles p)
        = min 100 (length (filter (\<lambda>a. a_author_username a = Some username) (articles d))))"
  by (auto simp: get_articles_def get_comments_def get_user_profile_def length_to_list
      length_sort_desc find_many_def split: option.splits)

lemma articles_crowded_db: "articles crowded_db = map numbered_article [0..<1001]"
  by (simp add: crowded_db_def)

lemma filter_crowded_db:
  assumes "\<And>i. P (numbered_article i)"
  shows "filter P (articles crowded_db) = articles crowded_db"
  using assms by (simp add: articles_crowded_db filter_id_conv)

lemma length_crowded_db: "length (articles crowded_db) = 1001"
  by (simp add: articles_crowded_db)

lemma distinct_crowded_db: "distinct (articles crowded_db)"
proof -
  have "inj numbered_article"
  proof (rule injI)
    fix i j assume "numbered_article i = numbered_article j"
    then have "a_created_at (numbered_article i) = a_created_at (numbered_article j)" by simp
    then show "i = j" by (simp add: numbered_article_def)
  qed
  then show ?thesis
    by (simp add: articles_crowded_db distinct_map inj_on_def)
qed

text \<open>A database with 1001 articles of one author: 1000 are listed, 100 in the profile.\<close>

theorem list_endpoints_truncate_witness:
  "length (filter (articles_query None None) (articles crowded_db)) = 1001 \<and>
   length (get_articles crowded_db None None) = 1000 \<and>
   length (get_comments crowded_db ''a1'') = 0 \<and>
   length (filter (\<lambda>a. a_author_username a = Some ''alice'') (articles crowded_db)) = 1001 \<and>
   map_sum id (\<lambda>p. length (profile_articles p)) (get_user_profile crowded_db ''alice'') = Inr 100"
proof -
  have all: "filter (articles_query None None) (articles crowded_db) = articles crowded_db"
    by (rule filter_crowded_db) (simp add: articles_query_def)
  have mine: "filter (\<lambda>a. a_author_username a = Some ''alice'') (articles crowded_db)
      = articles crowded_db"
    by (rule filter_crowded_db) (simp add: numbered_article_def)
  have user: "find_one (\<lambda>u. u_username u = ''alice'') (users crowded_db) = Some alice"
    by (simp add: find_one_def crowded_db_def alice_def)
  then obtain p where p: "get_user_profile crowded_db ''alice'' = Inr p"
    by (simp add: get_user_profile_def)
  have none: "comments crowded_db = []"
    by (simp add: crowded_db_def)
  from list_endpoints_truncate[of crowded_db None None "''a1''" "''alice''"] p all mine none
  show ?thesis
    by (simp add: length_crowded_db)
qed

lemma sorted_wrt_take_drop:
  assumes "sorted_wrt R xs"
  shows "\<forall>a\<in>set (take n xs). \<forall>b\<in>set (drop n xs). R a b"
proof -
  have "sorted_wrt R (take n xs @ drop n xs)" using assms by simp
  then show ?thesis unfolding sorted_wrt_append by blast
qed

text \<open>
  Claim C9, as amended. For a non-empty tag \<open>X\<close>, \<open>get_articles\<close> with that tag
  and no author returns only stored articles whose tags contain \<open>X\<close>, none more often
  than it is stored, sorted by \<^verbatim>\<open>created_at\<close> in descending order, and as many of
  them as there are, up to 1000.
  When at most 1000 articles carry the tag the result holds exactly those; otherwise it
  holds 1000 of them, and no article that is left out is newer than one that is returned.
\<close>

theorem get_articles_by_tag:
  assumes "X \<noteq> []"
  shows "set (get_articles d (Some X) None) \<subseteq> {a \<in> set (articles d). X \<in> set (a_tags a)} \<and>
     mset (get_articles d (Some X) None) \<subseteq># mset (filter (has_tag X) (articles d)) \<and>
     sorted_wrt (\<lambda>a b. a_created_at b \<le> a_created_at a) (get_articles d (Some X) None) \<and>
     length (get_articles d (Some X) None) = min 1000 (length (filter (has_tag X) (articles d))) \<and>
     (length (filter (has_tag X) (articles d)) \<le> 1000 \<longrightarrow>
        mset (get_articles d (Some X) None) = mset (filter (has_tag X) (articles d))) \<and>
     (\<forall>b \<in># mset (filter (has_tag X) (articles d)) - mset (get_articles d (Some X) None).
        \<forall>a \<in> set (get_articles d (Some X) None). a_created_at b \<le> a_created_at a)"
proof -
  let ?s = "sort_desc a_created_at (filter (has_tag X) (articles d))"
  have q: "articles_query (Some X) None = has_tag X"
    using assms by (auto simp: articles_query_def has_tag_def fun_eq_iff)
  have res: "get_articles d (Some X) None = take 1000 ?s"
    by (simp add: get_articles_def to_list_def find_many_def q)
  have perm: "mset ?s = mset (filter (has_tag X) (articles d))"
    by (rule mset_sort_desc)
  have sorted: "sorted_wrt (\<lambda>a b. a_created_at b \<le> a_created_at a) ?s"
    by (rule sorted_sort_desc)
  have "set (take 1000 ?s) \<subseteq> set ?s" by (rule set_take_subset)
  also have "set ?s = set (filter (has_tag X) (articles d))"
    using perm by (rule mset_eq_setD)
  finally have sub: "set (get_articles d (Some X) None) \<subseteq> {a \<in> set (articles d). X \<in> set (a_tags a)}"
    by (auto simp: res has_tag_def)
  have srt: "sorted_wrt (\<lambda>a b. a_created_at b \<le> a_created_at a) (get_articles d (Some X) None)"
    unfolding res using sorted by (rule sorted_wrt_take)
  have len: "length (get_articles d (Some X) None) = min 1000 (length (filter (has_tag X) (articles d)))"
    by (simp add: res length_sort_desc min.commute)
  have all: "mset (get_articles d (Some X) None) = mset (filter (has_tag X) (articles d))"
    if "length (filter (has_tag X) (articles d)) \<le> 1000"
    using that perm by (simp add: res length_sort_desc)
  have "mset (filter (has_tag X) (articles d)) = mset (take 1000 ?s @ drop 1000 ?s)"
    using perm by simp
  then have "mset (filter (has_tag X) (articles d)) = mset (take 1000 ?s) + mset (drop 1000 ?s)"
    by (simp only: mset_append)
  then have parts: "mset (filter (has_tag X) (articles d))
      = mset (get_articles d (Some X) None) + mset (drop 1000 ?s)"
    by (simp only: res)
  then have part: "mset (get_articles d (Some X) None) \<subseteq># mset (filter (has_tag X) (articles d))"
    by simp
  from parts have rest: "mset (filter (has_tag X) (articles d)) - mset (get_articles d (Some X) None)
      = mset (drop 1000 ?s)"
    by (simp only: add_diff_cancel_left')
  have newest: "\<forall>b \<in># mset (filter (has_tag X) (articles d)) - mset (get_articles d (Some X) None).
        \<forall>a \<in> set (get_articles d (Some X) None). a_created_at b \<le> a_created_at a"
    unfolding rest using sorted_wrt_take_drop[OF sorted, of 1000] by (auto simp: res)
  from sub part srt len all newest show ?thesis by blast
qed

text \<open>
  The claim as stated, that the result is exactly the set of articles whose tags contain
  \<open>X\<close>, fails where more than 1000 articles carry the tag.
\<close>

theorem get_articles_by_tag_counterexample:
  "set (get_articles crowded_db (Some ''intro'') None)
     \<noteq> set (filter (has_tag ''intro'') (articles crowded_db))"
proof
  assume eq: "set (get_articles crowded_db (Some ''intro'') None)
     = set (filter (has_tag ''intro'') (articles crowded_db))"
  have all: "filter (has_tag ''intro'') (articles crowded_db) = articles crowded_db"
    by (rule filter_crowded_db) (simp add: has_tag_def numbered_article_def)
  have q: "filter (articles_query (Some ''intro'') None) (articles crowded_db) = articles crowded_db"
    by (rule filter_crowded_db) (simp add: articles_query_def numbered_article_def)
  have "card (set (get_articles crowded_db (Some ''intro'') None))
      \<le> length (get_articles crowded_db (Some ''intro'') None)"
    by (rule card_length)
  also have "\<dots> = 1000"
    by (simp add: length_get_articles q length_crowded_db)
  finally have "card (set (articles crowded_db)) \<le> 1000"
    by (simp add: eq all)
  moreover have "card (set (articles crowded_db)) = 1001"
    using distinct_crowded_db by (simp add: distinct_card length_crowded_db)
  ultimately show False by simp
qed

text \<open>On the sample database the tag of the one article selects it, another tag nothing.\<close>

theorem get_articles_by_tag_witness:
  "''intro'' \<noteq> [] \<and>
   get_articles sample_db (Some ''intro'') None = [post1] \<and>
   filter (has_tag ''intro'') (articles sample_db) = [post1] \<and>
   get_articles sample_db (Some ''other'') None = []"
proof -
  have ne: "''intro'' \<noteq> []" by simp
  have m: "filter (has_tag ''intro'') (articles sample_db) = [post1]"
    by (simp add: has_tag_def sample_defs)
  from get_articles_by_tag[OF ne, of sample_db] m
  have "mset (get_articles sample_db (Some ''intro'') None) = mset [post1]"
    by simp
  then have "get_articles sample_db (Some ''intro'') None = [post1]"
    by (metis mset_single_iff_right mset.simps(1) add_mset_eq_single mset_eq_length length_Suc_conv length_0_conv mset.simps(2))
  moreover have "get_articles sample_db (Some ''other'') None = []"
    by (simp add: get_articles_def to_list_def sort_desc_def find_many_def articles_query_def sample_defs)
  ultimately show ?thesis using m by simp
qed

subsection \<open>Likes\<close>

lemma inc_likes_count_inverse: "inc_likes_count (- 1) (inc_likes_count 1 a) = a"
  by (simp add: inc_likes_count_def)

lemma a_id_inc_likes_count: "a_id (inc_likes_count n a) = a_id a"
  by (simp add: inc_likes_count_def)

text \<open>
  Claim C5, as amended. Let an article with the given id be stored and let the user have
  no like on it. Then \<open>like_article\<close> succeeds and leaves the article's
  \<^verbatim>\<open>likes_count\<close> one greater; a second \<open>like_article\<close> succeeds and changes
  nothing; \<open>unlike_article\<close> after that succeeds and restores the database from
  before the first call, the count with it; and \<open>unlike_article\<close> where the user has
  no like raises the 404 exception "Like not found" and changes nothing.
\<close>

theorem like_twice_then_unlike:
  assumes "find_one (\<lambda>a. a_id a = article_id) (articles d) = Some article"
    and "find_one (\<lambda>l. l_article_id l = article_id \<and> l_user_id l = u_id current_user)
           (likes d) = None"
  shows "\<exists>d1.
     like_article d now new_id article_id current_user = (Inr ''Liked'', d1) \<and>
     likes_count_of d1 article_id = Some (a_likes_count article + 1) \<and>
     like_article d1 now' new_id' article_id current_user = (Inr ''Already liked'', d1) \<and>
     unlike_article d1 article_id current_user = (Inr ''Unliked'', d) \<and>
     likes_count_of d article_id = Some (a_likes_count article) \<and>
     unlike_article d article_id current_user = (Inl (HTTPException 404 ''Like not found''), d)"
proof -
  let ?qa = "\<lambda>a. a_id a = article_id"
  let ?ql = "\<lambda>l. l_article_id l = article_id \<and> l_user_id l = u_id current_user"
  let ?like = "\<lparr>l_id = new_id, l_article_id = article_id, l_user_id = u_id current_user,
      l_created_at = now\<rparr>"
  let ?d1 = "d\<lparr>likes := insert_one ?like (likes d),
      articles := update_one ?qa (inc_likes_count 1) (articles d)\<rparr>"
  from find_one_split[OF assms(1)] obtain pre post
    where c: "articles d = pre @ article # post"
      and pre: "\<forall>y\<in>set pre. \<not> ?qa y" and x: "?qa article" by blast
  from assms(2) have none: "\<forall>l\<in>set (likes d). \<not> ?ql l"
    by (simp add: find_one_None_iff)
  have first: "like_article d now new_id article_id current_user = (Inr ''Liked'', ?d1)"
    using assms by (simp add: like_article_def)
  have inc: "articles ?d1 = pre @ inc_likes_count 1 article # post"
    using pre x by (simp add: c update_one_split)
  have x': "?qa (inc_likes_count 1 article)"
    using x by (simp add: a_id_inc_likes_count)
  have found1: "find_one ?qa (articles ?d1) = Some (inc_likes_count 1 article)"
    unfolding inc using pre x' by (rule find_one_append_first)
  then have count1: "likes_count_of ?d1 article_id = Some (a_likes_count article + 1)"
    by (simp add: likes_count_of_def inc_likes_count_def)
  have liked: "find_one ?ql (likes ?d1) = Some ?like"
    using none by (simp add: insert_one_def find_one_append_first)
  have second: "like_article ?d1 now' new_id' article_id current_user = (Inr ''Already liked'', ?d1)"
    using found1 liked by (simp add: like_article_def)
  have del: "delete_one ?ql (likes ?d1) = (likes d, 1)"
    using none delete_one_split[of "likes d" ?ql ?like "[]"] by (simp add: insert_one_def)
  have restored: "update_one ?qa (inc_likes_count (- 1)) (articles ?d1) = articles d"
    unfolding inc using pre x' by (simp add: update_one_split inc_likes_count_inverse c)
  have third: "unlike_article ?d1 article_id current_user = (Inr ''Unliked'', d)"
    using del restored by (simp add: unlike_article_def)
  have count: "likes_count_of d article_id = Some (a_likes_count article)"
    using assms(1) by (simp add: likes_count_of_def)
  have missing: "unlike_article d article_id current_user
      = (Inl (HTTPException 404 ''Like not found''), d)"
    using delete_one_no_match[OF none] by (simp add: unlike_article_def)
  from first count1 second third count missing show ?thesis by blast
qed

text \<open>
  The claim as stated, for every user, fails for one who has liked the article already:
  bob's two calls leave the count of the sample article at 1.
\<close>

theorem like_twice_then_unlike_counterexample:
  "likes_count_of sample_db ''a1'' = Some 1 \<and>
   likes_count_of
     (snd (like_article (snd (like_article sample_db 60 ''l2'' ''a1'' bob)) 61 ''l3'' ''a1'' bob))
     ''a1'' = Some 1"
  by (simp add: likes_count_of_def like_article_def find_one_def sample_defs)

text \<open>Alice, who has no like on the sample article, likes it twice and unlikes it.\<close>

theorem like_twice_then_unlike_witness:
  "find_one (\<lambda>a. a_id a = ''a1'') (articles sample_db) = Some post1 \<and>
   find_one (\<lambda>l. l_article_id l = ''a1'' \<and> l_user_id l = u_id alice) (likes sample_db) = None \<and>
   likes_count_of sample_db ''a1'' = Some 1 \<and>
   likes_count_of (snd (like_article sample_db 60 ''l2'' ''a1'' alice)) ''a1'' = Some 2 \<and>
   likes_count_of
     (snd (like_article (snd (like_article sample_db 60 ''l2'' ''a1'' alice)) 61 ''l3'' ''a1'' alice))
     ''a1'' = Some 2 \<and>
   unlike_article (snd (like_article sample_db 60 ''l2'' ''a1'' alice)) ''a1'' alice
     = (Inr ''Unliked'', sample_db) \<and>
   unlike_article sample_db ''a1'' alice = (Inl (HTTPException 404 ''Like not found''), sample_db)"
proof -
  have found: "find_one (\<lambda>a. a_id a = ''a1'') (articles sample_db) = Some post1"
    by (simp add: find_one_def sample_defs)
  have none: "find_one (\<lambda>l. l_article_id l = ''a1'' \<and> l_user_id l = u_id alice) (likes sample_db)
      = None"
    by (simp add: find_one_def sample_defs)
  have n: "a_likes_count post1 = 1"
    by (simp add: post1_def)
  from like_twice_then_unlike[OF found none, of 60 "''l2''" 61 "''l3''"] found none n
  show ?thesis by auto
qed

subsection \<open>Counters\<close>

text \<open>Where the key is distinct, the first match is the only one.\<close>

lemma update_one_eq_map:
  "distinct (map k xs) \<Longrightarrow>
   update_one (\<lambda>a. k a = v) f xs = map (\<lambda>a. if k a = v then f a else a) xs"
proof (induction xs)
  case Nil
  then show ?case by simp
next
  case (Cons d ds)
  show ?case
  proof (cases "k d = v")
    case True
    from Cons.prems have "k d \<notin> k ` set ds" by simp
    with True have "\<forall>a\<in>set ds. k a \<noteq> v" by blast
    then have "map (\<lambda>a. if k a = v then f a else a) ds = ds"
      by (simp add: map_idI)
    with True show ?thesis by simp
  next
    case False
    with Cons show ?thesis by simp
  qed
qed

lemma delete_one_eq_filter:
  "distinct (map k xs) \<Longrightarrow> fst (delete_one (\<lambda>a. k a = v) xs) = filter (\<lambda>a. k a \<noteq> v) xs"
proof (induction xs)
  case Nil
  then show ?case by simp
next
  case (Cons d ds)
  show ?case
  proof (cases "k d = v")
    case True
    from Cons.prems have "k d \<notin> k ` set ds" by simp
    with True have "\<forall>a\<in>set ds. k a \<noteq> v" by blast
    then have "filter (\<lambda>a. k a \<noteq> v) ds = ds" by simp
    with True show ?thesis by simp
  next
    case False
    with Cons show ?thesis by simp
  qed
qed

lemma delete_one_cases:
  "(snd (delete_one q xs) = 0 \<and> fst (delete_one q xs) = xs) \<or>
   (\<exists>pre x post. xs = pre @ x # post \<and> q x \<and> delete_one q xs = (pre @ post, 1))"
proof (cases "find_one q xs")
  case None
  then have "\<forall>x\<in>set xs. \<not> q x" by (simp add: find_one_None_iff)
  then show ?thesis by (simp add: delete_one_no_match)
next
  case (Some x)
  from find_one_split[OF this] obtain pre post
    where "xs = pre @ x # post" "\<forall>y\<in>set pre. \<not> q y" "q x" by blast
  then show ?thesis using delete_one_split[of pre q x post] by blast
qed

lemma well_formed_empty: "well_formed empty_db"
  by (simp add: well_formed_def counters_consistent_def empty_db_def)

lemma well_formed_users: "well_formed (d\<lparr>users := us\<rparr>) = well_formed d"
  by (simp add: well_formed_def counters_consistent_def likes_of_def comments_of_def)

lemma well_formed_register:
  "well_formed d \<Longrightarrow> well_formed (snd (register g d now new_id salt user_data))"
  by (simp add: register_def Let_def well_formed_users split: option.splits)

lemma well_formed_login:
  "well_formed d \<Longrightarrow> well_formed (snd (login g d now credentials))"
  by (simp add: login_def split: option.splits)

lemma well_formed_create_article:
  assumes "well_formed d" and "new_id \<notin> a_id ` set (articles d)"
  shows "well_formed (snd (create_article d now new_id article_data current_user))"
proof -
  from assms have "likes_of d new_id = []" "comments_of d new_id = []"
    by (auto simp: well_formed_def likes_of_def comments_of_def filter_empty_conv)
  with assms show ?thesis
    by (auto simp: create_article_def Let_def insert_one_def well_formed_def
        counters_consistent_def likes_of_def comments_of_def)
qed

lemma well_formed_update_article:
  assumes "well_formed d"
  shows "well_formed (snd (update_article d now article_id article_data current_user))"
proof -
  let ?f = "\<lambda>a. if a_id a = article_id then set_update_data article_data now a else a"
  let ?d' = "d\<lparr>articles := map ?f (articles d)\<rparr>"
  have ids: "map a_id (map ?f (articles d)) = map a_id (articles d)"
    by (simp add: a_id_set_update_data)
  then have img: "a_id ` set (map ?f (articles d)) = a_id ` set (articles d)"
    by (metis list.set_map)
  have "well_formed ?d'"
    using assms ids img
    by (auto simp: well_formed_def counters_consistent_def likes_of_def comments_of_def
        set_update_data_def simp del: map_map)
  moreover have "update_one (\<lambda>a. a_id a = article_id) (set_update_data article_data now) (articles d)
      = map ?f (articles d)"
    using assms by (intro update_one_eq_map) (simp add: well_formed_def)
  ultimately show ?thesis
    using assms by (simp add: update_article_def Let_def split: option.splits)
qed

lemma well_formed_delete_article:
  assumes "well_formed d"
  shows "well_formed (snd (delete_article d article_id current_user))"
proof -
  let ?d' = "d\<lparr>articles := filter (\<lambda>a. a_id a \<noteq> article_id) (articles d),
      comments := delete_many (\<lambda>c. c_article_id c = article_id) (comments d),
      likes := delete_many (\<lambda>l. l_article_id l = article_id) (likes d)\<rparr>"
  have "well_formed ?d'"
    using assms
    by (auto simp: well_formed_def counters_consistent_def likes_of_def comments_of_def
        delete_many_def distinct_map_filter conj_commute
        intro!: arg_cong[where f=length] filter_cong)
  moreover have "fst (delete_one (\<lambda>a. a_id a = article_id) (articles d))
      = filter (\<lambda>a. a_id a \<noteq> article_id) (articles d)"
    using assms by (intro delete_one_eq_filter) (simp add: well_formed_def)
  ultimately show ?thesis
    using assms by (simp add: delete_article_def split: option.splits)
qed

lemma well_formed_bump_likes:
  assumes "well_formed d"
    and "length (filter (\<lambda>l. l_article_id l = article_id) ls)
           = nat (int (length (filter (\<lambda>l. l_article_id l = article_id) (likes d))) + n)"
    and "int (length (filter (\<lambda>l. l_article_id l = article_id) (likes d))) + n \<ge> 0"
    and "\<And>v. v \<noteq> article_id \<Longrightarrow>
           length (filter (\<lambda>l. l_article_id l = v) ls)
             = length (filter (\<lambda>l. l_article_id l = v) (likes d))"
    and "\<forall>l\<in>set ls. l_article_id l \<in> a_id ` set (articles d)"
  shows "well_formed (d\<lparr>likes := ls,
     articles := update_one (\<lambda>a. a_id a = article_id) (inc_likes_count n) (articles d)\<rparr>)"
proof -
  let ?f = "\<lambda>a. if a_id a = article_id then inc_likes_count n a else a"
  have upd: "update_one (\<lambda>a. a_id a = article_id) (inc_likes_count n) (articles d)
      = map ?f (articles d)"
    using assms(1) by (intro update_one_eq_map) (simp add: well_formed_def)
  have ids: "map a_id (map ?f (articles d)) = map a_id (articles d)"
    by (simp add: a_id_inc_likes_count)
  then have img: "a_id ` set (map ?f (articles d)) = a_id ` set (articles d)"
    by (metis list.set_map)
  have counts: "a_likes_count (?f a) = int (length (filter (\<lambda>l. l_article_id l = a_id (?f a)) ls))
      \<and> a_comments_count (?f a)
        = int (length (filter (\<lambda>c. c_article_id c = a_id (?f a)) (comments d)))"
    if "a \<in> set (articles d)" for a
  proof (cases "a_id a = article_id")
    case True
    with that assms(1,2,3) show ?thesis
      by (simp add: well_formed_def counters_consistent_def likes_of_def comments_of_def
          inc_likes_count_def)
  next
    case False
    with that assms(1) assms(4)[of "a_id a"] show ?thesis
      by (simp add: well_formed_def counters_consistent_def likes_of_def comments_of_def)
  qed
  let ?d' = "d\<lparr>likes := ls, articles := map ?f (articles d)\<rparr>"
  have shape: "distinct (map a_id (articles ?d')) \<and>
      (\<forall>l\<in>set (likes ?d'). l_article_id l \<in> a_id ` set (articles ?d')) \<and>
      (\<forall>c\<in>set (comments ?d'). c_article_id c \<in> a_id ` set (articles ?d'))"
    using assms(1,5) ids img by (simp add: well_formed_def del: map_map)
  have "counters_consistent ?d'"
    unfolding counters_consistent_def likes_of_def comments_of_def
  proof
    fix a' assume "a' \<in> set (articles ?d')"
    then have "a' \<in> ?f ` set (articles d)" by simp
    then obtain a where a: "a \<in> set (articles d)" and a': "a' = ?f a" by (rule imageE)
    from counts[OF a]
    show "a_likes_count a' = int (length (filter (\<lambda>l. l_article_id l = a_id a') (likes ?d'))) \<and>
        a_comments_count a'
          = int (length (filter (\<lambda>c. c_article_id c = a_id a') (comments ?d')))"
      unfolding a' by simp
  qed
  with shape have "well_formed ?d'" unfolding well_formed_def by blast
  with upd show ?thesis by simp
qed

lemma a_id_inc_comments_count: "a_id (inc_comments_count n a) = a_id a"
  by (simp add: inc_comments_count_def)

lemma well_formed_like_article:
  assumes "well_formed d"
  shows "well_formed (snd (like_article d now new_id article_id current_user))"
proof (cases "find_one (\<lambda>a. a_id a = article_id) (articles d)")
  case None
  with assms show ?thesis by (simp add: like_article_def)
next
  case (Some article)
  let ?ql = "\<lambda>l. l_article_id l = article_id \<and> l_user_id l = u_id current_user"
  show ?thesis
  proof (cases "find_one ?ql (likes d)")
    case existing: (Some l)
    with Some assms show ?thesis by (simp add: like_article_def)
  next
    case None
    let ?like = "\<lparr>l_id = new_id, l_article_id = article_id, l_user_id = u_id current_user,
        l_created_at = now\<rparr>"
    from find_one_SomeD[OF Some] have "article_id \<in> a_id ` set (articles d)" by force
    with assms have "well_formed (d\<lparr>likes := likes d @ [?like],
        articles := update_one (\<lambda>a. a_id a = article_id) (inc_likes_count 1) (articles d)\<rparr>)"
      by (intro well_formed_bump_likes) (auto simp: well_formed_def)
    with Some None show ?thesis
      by (simp add: like_article_def Let_def insert_one_def)
  qed
qed

lemma well_formed_unlike_article:
  assumes "well_formed d"
  shows "well_formed (snd (unlike_article d article_id current_user))"
proof -
  let ?ql = "\<lambda>l. l_article_id l = article_id \<and> l_user_id l = u_id current_user"
  from delete_one_cases[of ?ql "likes d"] show ?thesis
  proof
    assume "snd (delete_one ?ql (likes d)) = 0 \<and> fst (delete_one ?ql (likes d)) = likes d"
    with assms show ?thesis by (simp add: unlike_article_def Let_def)
  next
    assume "\<exists>pre x post. likes d = pre @ x # post \<and> ?ql x \<and>
        delete_one ?ql (likes d) = (pre @ post, 1)"
    then obtain pre x post where c: "likes d = pre @ x # post" and x: "?ql x"
      and del: "delete_one ?ql (likes d) = (pre @ post, 1)" by blast
    from assms c x
    have "well_formed (d\<lparr>likes := pre @ post,
        articles := update_one (\<lambda>a. a_id a = article_id) (inc_likes_count (- 1)) (articles d)\<rparr>)"
      by (intro well_formed_bump_likes) (auto simp: well_formed_def)
    with del show ?thesis by (simp add: unlike_article_def Let_def)
  qed
qed

lemma well_formed_create_comment:
  assumes "well_formed d"
  shows "well_formed (snd (create_comment d now new_id article_id content current_user))"
proof (cases "find_one (\<lambda>a. a_id a = article_id) (articles d)")
  case None
  with assms show ?thesis by (simp add: create_comment_def)
next
  case (Some article)
  let ?comment = "\<lparr>c_id = new_id, c_article_id = article_id, c_user_id = u_id current_user,
      c_username = Some (u_username current_user), c_content = content, c_created_at = now\<rparr>"
  let ?f = "\<lambda>a. if a_id a = article_id then inc_comments_count 1 a else a"
  let ?d' = "d\<lparr>comments := comments d @ [?comment], articles := map ?f (articles d)\<rparr>"
  from find_one_SomeD[OF Some] have stored: "article_id \<in> a_id ` set (articles d)" by force
  have upd: "update_one (\<lambda>a. a_id a = article_id) (inc_comments_count 1) (articles d)
      = map ?f (articles d)"
    using assms by (intro update_one_eq_map) (simp add: well_formed_def)
  have ids: "map a_id (map ?f (articles d)) = map a_id (articles d)"
    by (simp add: a_id_inc_comments_count)
  then have img: "a_id ` set (map ?f (articles d)) = a_id ` set (articles d)"
    by (metis list.set_map)
  have shape: "distinct (map a_id (articles ?d')) \<and>
      (\<forall>l\<in>set (likes ?d'). l_article_id l \<in> a_id ` set (articles ?d')) \<and>
      (\<forall>c\<in>set (comments ?d'). c_article_id c \<in> a_id ` set (articles ?d'))"
    using assms stored ids img by (simp add: well_formed_def del: map_map)
  have "counters_consistent ?d'"
    unfolding counters_consistent_def likes_of_def comments_of_def
  proof
    fix a' assume "a' \<in> set (articles ?d')"
    then have "a' \<in> ?f ` set (articles d)" by simp
    then obtain a where a: "a \<in> set (articles d)" and a': "a' = ?f a" by (rule imageE)
    from a assms
    show "a_likes_count a' = int (length (filter (\<lambda>l. l_article_id l = a_id a') (likes ?d'))) \<and>
        a_comments_count a'
          = int (length (filter (\<lambda>c. c_article_id c = a_id a') (comments ?d')))"
      unfolding a'
      by (simp add: well_formed_def counters_consistent_def likes_of_def comments_of_def
          inc_comments_count_def)
  qed
  with shape have "well_formed ?d'" unfolding well_formed_def by blast
  with upd Some show ?thesis by (simp add: create_comment_def Let_def insert_one_def)
qed

lemma reachable_well_formed: "reachable g d \<Longrightarrow> well_formed d"
proof (induction rule: reachable.induct)
  case initial
  show ?case by (rule well_formed_empty)
next
  case (registered d now new_id salt user_data)
  then show ?case by (simp add: well_formed_register)
next
  case (logged_in d now credentials)
  then show ?case by (simp add: well_formed_login)
next
  case (article_created d new_id now article_data current_user)
  then show ?case by (simp add: well_formed_create_article)
next
  case (article_updated d now article_id article_data current_user)
  then show ?case by (simp add: well_formed_update_article)
next
  case (article_deleted d article_id current_user)
  then show ?case by (simp add: well_formed_delete_article)
next
  case (liked d now new_id article_id current_user)
  then show ?case by (simp add: well_formed_like_article)
next
  case (unliked d article_id current_user)
  then show ?case by (simp add: well_formed_unlike_article)
next
  case (commented d now new_id article_id content current_user)
  then show ?case by (simp add: well_formed_create_comment)
qed

text \<open>
  Claim C6. In every database that handler calls reach from the empty database, every
  stored article's \<^verbatim>\<open>likes_count\<close> is the number of likes whose
  \<^verbatim>\<open>article_id\<close> is the article's id, and its \<^verbatim>\<open>comments_count\<close> the
  number of such comments.
\<close>

theorem counters_match_records:
  assumes "reachable g d"
  shows "\<forall>a\<in>set (articles d).
     a_likes_count a = int (length (filter (\<lambda>l. l_article_id l = a_id a) (likes d))) \<and>
     a_comments_count a = int (length (filter (\<lambda>c. c_article_id c = a_id a) (comments d)))"
  using reachable_well_formed[OF assms]
  by (simp add: well_formed_def counters_consistent_def likes_of_def comments_of_def)

lemma played_db_eq: "played_db = sample_db\<lparr>users := []\<rparr>"
  by (simp add: played_db_def create_comment_def like_article_def create_article_def
      find_one_def insert_one_def inc_likes_count_def inc_comments_count_def empty_db_def
      Let_def draft_def sample_defs)

text \<open>
  The database after alice creates the sample article and bob likes it and comments on
  it.
\<close>

theorem counters_match_records_witness:
  "reachable sample_globals played_db \<and>
   articles played_db = [post1] \<and>
   a_likes_count post1 = 1 \<and>
   length (filter (\<lambda>l. l_article_id l = a_id post1) (likes played_db)) = 1 \<and>
   a_comments_count post1 = 1 \<and>
   length (filter (\<lambda>c. c_article_id c = a_id post1) (comments played_db)) = 1"
proof -
  have "''a1'' \<notin> a_id ` set (articles empty_db)"
    by (simp add: empty_db_def)
  then have r: "reachable sample_globals played_db"
    unfolding played_db_def
    by (intro reachable.commented reachable.liked reachable.article_created reachable.initial)
  have a: "articles played_db = [post1]"
    by (simp add: played_db_eq sample_db_def)
  from counters_match_records[OF r] a
  have "a_likes_count post1
        = int (length (filter (\<lambda>l. l_article_id l = a_id post1) (likes played_db)))"
    and "a_comments_count post1
        = int (length (filter (\<lambda>c. c_article_id c = a_id post1) (comments played_db)))"
    by simp_all
  moreover have "a_likes_count post1 = 1" "a_comments_count post1 = 1"
    by (simp_all add: post1_def)
  ultimately show ?thesis using r a by simp
qed

subsection \<open>Tokens\<close>

text \<open>The token that \<open>create_access_token\<close> issues.\<close>

lemma create_access_token_eq:
  "create_access_token g now subject =
     JWT ALGORITHM \<lparr>claim_sub = Some subject,
         claim_exp = Some ((now + 30 * 86400 * 1000000) div 1000000)\<rparr>
       (HMAC ALGORITHM (SECRET_KEY g)
          \<lparr>claim_sub = Some subject,
            claim_exp = Some ((now + 30 * 86400 * 1000000) div 1000000)\<rparr>)"
  by (simp add: create_access_token_def Let_def jwt_encode_def)

text \<open>
  It expires thirty days after it was issued, rounded down to the second: more than
  thirty days less a second after the instant of issue.
\<close>

lemma expiry_of_create_access_token:
  "\<exists>e. expiry_of (create_access_token g now subject) = Some e \<and>
       real_of_int now / 1000000 + 2591999 < real_of_int e \<and>
       real_of_int e \<le> real_of_int now / 1000000 + 2592000"
proof -
  let ?E = "now + 30 * 86400 * 1000000"
  let ?e = "?E div 1000000"
  have tok: "expiry_of (create_access_token g now subject) = Some ?e"
    by (simp add: expiry_of_def create_access_token_eq)
  have "?e * 1000000 = ?E - ?E mod 1000000"
    by (simp only: minus_mod_eq_div_mult)
  moreover have "0 \<le> ?E mod 1000000" "?E mod 1000000 < 1000000"
    by simp_all
  ultimately have "now + 2591999000000 < ?e * 1000000" "?e * 1000000 \<le> now + 2592000000000"
    by simp_all
  then have "real_of_int (now + 2591999000000) < real_of_int (?e * 1000000)"
    "real_of_int (?e * 1000000) \<le> real_of_int (now + 2592000000000)"
    by (simp_all only: of_int_less_iff of_int_le_iff)
  then have "real_of_int now / 1000000 + 2591999 < real_of_int ?e"
    "real_of_int ?e \<le> real_of_int now / 1000000 + 2592000"
    by (simp_all add: field_simps)
  with tok show ?thesis by blast
qed

text \<open>
  Validated at a clock reading below its expiry, a token issued for the id of a stored
  user resolves to the user document that a lookup of the id finds.
\<close>

lemma token_resolves_before_expiry:
  assumes "find_one (\<lambda>u. u_id u = subject) (users d) = Some user"
    and "expiry_of (create_access_token g now subject) = Some e"
    and "clock < real_of_int e"
  shows "get_current_user g d clock (create_access_token g now subject) = Inr user"
  using assms
  by (auto simp: get_current_user_def get_current_user_try_def jwt_decode_def
      create_access_token_eq expiry_of_def)

text \<open>
  At a clock reading that has reached the expiry, validation raises the 401 exception
  "Token expired".
\<close>

lemma token_rejected_after_expiry:
  assumes "expiry_of (create_access_token g now subject) = Some e"
    and "real_of_int e \<le> clock"
  shows "get_current_user g d clock (create_access_token g now subject)
     = Inl (HTTPException 401 ''Token expired'')"
  using assms
  by (auto simp: get_current_user_def get_current_user_try_def jwt_decode_def
      create_access_token_eq expiry_of_def jwt_getattr_def jwt_exceptions_def)

text \<open>
  The module \<^verbatim>\<open>jwt\<close> has an \<^verbatim>\<open>ExpiredSignatureError\<close> and no
  \<^verbatim>\<open>JWTError\<close>.
\<close>

lemma jwt_getattr_JWTError: "jwt_getattr ''JWTError'' = Inl (AttributeError ''JWTError'')"
  by (simp add: jwt_getattr_def jwt_exceptions_def)

lemma jwt_getattr_ExpiredSignatureError:
  "jwt_getattr ''ExpiredSignatureError'' = Inr [ExpiredSignatureError]"
  by (simp add: jwt_getattr_def jwt_exceptions_def)

text \<open>
  Claim C2, where the code departs from it. A token that is malformed, one whose
  signature was made with another key, and a correctly signed one without a subject
  claim each end in the \<^verbatim>\<open>AttributeError\<close> of the second \<^verbatim>\<open>except\<close>
  clause, at every time and for every database, and not in a 401 exception. The lemmas
  \<open>token_resolves_before_expiry\<close> and \<open>token_rejected_after_expiry\<close> are the
  parts of the claim that hold: resolution at a clock reading before the expiry, and the
  401 exception "Token expired" at one that has reached it.
\<close>

theorem invalid_token_raises_AttributeError:
  "get_current_user g d now (Garbled s) = Inl (AttributeError ''JWTError'') \<and>
   get_current_user g d now (JWT ALGORITHM p (HMAC ALGORITHM (CHR ''x'' # SECRET_KEY g) p))
     = Inl (AttributeError ''JWTError'') \<and>
   get_current_user g d now
       (jwt_encode \<lparr>claim_sub = None, claim_exp = None\<rparr> (SECRET_KEY g) ALGORITHM)
     = Inl (AttributeError ''JWTError'')"
  by (simp add: get_current_user_def get_current_user_try_def jwt_decode_def jwt_encode_def
      jwt_getattr_JWTError jwt_getattr_ExpiredSignatureError)

subsection \<open>Registration\<close>

text \<open>
  Claim C3. When a stored user has the request's email or its username, \<open>register\<close>
  raises the 400 exception "User already exists" and returns the database as it was.
  When no stored user has either, \<open>register\<close> succeeds: it appends to the users the
  document with the new id, the request's username and email, empty bio and avatar, the
  current time and the hash of the request's password, changes nothing else, and returns
  the public fields of that user with a token. The token expires more than thirty days
  less a second after the instant of issue, and at every clock reading below its expiry
  \<open>get_current_user\<close> resolves it, on the new database, to a user document with the
  new id.
\<close>

theorem register_conflict_or_token:
  "((\<exists>u\<in>set (users d).
        u_email u = ur_email user_data \<or> u_username u = ur_username user_data) \<longrightarrow>
      register g d now new_id salt user_data
        = (Inl (HTTPException 400 ''User already exists''), d)) \<and>
   ((\<forall>u\<in>set (users d).
        u_email u \<noteq> ur_email user_data \<and> u_username u \<noteq> ur_username user_data) \<longrightarrow>
      (\<exists>resp d' e.
         register g d now new_id salt user_data = (Inr resp, d') \<and>
         d' = d\<lparr>users := users d @
                [\<lparr>u_id = new_id, u_username = ur_username user_data,
                  u_email = ur_email user_data, u_bio = Some [], u_avatar = Some [],
                  u_created_at = now,
                  u_password_hash = hash_password g salt (ur_password user_data)\<rparr>]\<rparr> \<and>
         resp_user resp
           = \<lparr>pub_id = new_id, pub_username = ur_username user_data,
               pub_email = ur_email user_data, pub_bio = Some [], pub_avatar = Some []\<rparr> \<and>
         expiry_of (resp_token resp) = Some e \<and>
         real_of_int now / 1000000 + 2591999 < real_of_int e \<and>
         (\<forall>clock. clock < real_of_int e \<longrightarrow>
            (\<exists>user. get_current_user g d' clock (resp_token resp) = Inr user \<and>
               u_id user = new_id))))"
proof (intro conjI impI)
  let ?q = "\<lambda>u. u_email u = ur_email user_data \<or> u_username u = ur_username user_data"
  assume "\<exists>u\<in>set (users d). ?q u"
  then have "find_one ?q (users d) \<noteq> None"
    by (simp add: find_one_None_iff)
  then show "register g d now new_id salt user_data
      = (Inl (HTTPException 400 ''User already exists''), d)"
    by (auto simp: register_def)
next
  let ?q = "\<lambda>u. u_email u = ur_email user_data \<or> u_username u = ur_username user_data"
  let ?new = "\<lparr>u_id = new_id, u_username = ur_username user_data,
      u_email = ur_email user_data, u_bio = Some [], u_avatar = Some [], u_created_at = now,
      u_password_hash = hash_password g salt (ur_password user_data)\<rparr>"
  let ?d' = "d\<lparr>users := users d @ [?new]\<rparr>"
  let ?resp = "\<lparr>resp_token = create_access_token g now new_id,
      resp_user = \<lparr>pub_id = new_id, pub_username = ur_username user_data,
        pub_email = ur_email user_data, pub_bio = Some [], pub_avatar = Some []\<rparr>\<rparr>"
  assume "\<forall>u\<in>set (users d).
      u_email u \<noteq> ur_email user_data \<and> u_username u \<noteq> ur_username user_data"
  then have "find_one ?q (users d) = None"
    by (simp add: find_one_None_iff)
  then have run: "register g d now new_id salt user_data = (Inr ?resp, ?d')"
    by (simp add: register_def Let_def insert_one_def)
  from expiry_of_create_access_token[of g now new_id] obtain e
    where e: "expiry_of (create_access_token g now new_id) = Some e"
      and late: "real_of_int now / 1000000 + 2591999 < real_of_int e"
    by blast
  have valid: "\<exists>user. get_current_user g ?d' clock (create_access_token g now new_id) = Inr user \<and>
      u_id user = new_id" if "clock < real_of_int e" for clock
  proof -
    have "find_one (\<lambda>u. u_id u = new_id) (users ?d') \<noteq> None"
      by (simp add: find_one_None_iff)
    then obtain user where user: "find_one (\<lambda>u. u_id u = new_id) (users ?d') = Some user"
      by blast
    from token_resolves_before_expiry[OF user e that] find_one_SomeD[OF user]
    show ?thesis by blast
  qed
  show "\<exists>resp d' e.
         register g d now new_id salt user_data = (Inr resp, d') \<and>
         d' = d\<lparr>users := users d @
                [\<lparr>u_id = new_id, u_username = ur_username user_data,
                  u_email = ur_email user_data, u_bio = Some [], u_avatar = Some [],
                  u_created_at = now,
                  u_password_hash = hash_password g salt (ur_password user_data)\<rparr>]\<rparr> \<and>
         resp_user resp
           = \<lparr>pub_id = new_id, pub_username = ur_username user_data,
               pub_email = ur_email user_data, pub_bio = Some [], pub_avatar = Some []\<rparr> \<and>
         expiry_of (resp_token resp) = Some e \<and>
         real_of_int now / 1000000 + 2591999 < real_of_int e \<and>
         (\<forall>clock. clock < real_of_int e \<longrightarrow>
            (\<exists>user. get_current_user g d' clock (resp_token resp) = Inr user \<and>
               u_id user = new_id))"
    using run e late valid
    by (intro exI[of _ ?resp] exI[of _ ?d'] exI[of _ e]) simp
qed

text \<open>
  On the sample database, a request with alice's email and one of a new user, whose token
  is validated one second after the epoch.
\<close>

theorem register_conflict_or_token_witness:
  "alice \<in> set (users sample_db) \<and>
   u_email alice = ur_email alice_again \<and>
   register sample_globals sample_db 60 ''u3'' ''c'' alice_again
     = (Inl (HTTPException 400 ''User already exists''), sample_db) \<and>
   map_sum id (\<lambda>r. pub_id (resp_user r))
       (fst (register sample_globals sample_db 60 ''u3'' ''c'' carol_request)) = Inr ''u3'' \<and>
   map u_id (users (snd (register sample_globals sample_db 60 ''u3'' ''c'' carol_request)))
     = [''u1'', ''u2'', ''u3''] \<and>
   map_sum id u_id
       (get_current_user sample_globals
          (snd (register sample_globals sample_db 60 ''u3'' ''c'' carol_request)) 1
          (create_access_token sample_globals 60 ''u3'')) = Inr ''u3''"
proof -
  have dup: "alice \<in> set (users sample_db)" "u_email alice = ur_email alice_again"
    by (simp_all add: sample_defs alice_again_def)
  then have "\<exists>u\<in>set (users sample_db).
      u_email u = ur_email alice_again \<or> u_username u = ur_username alice_again"
    by blast
  with register_conflict_or_token[of sample_db alice_again sample_globals 60 "''u3''" "''c''"]
  have conflict: "register sample_globals sample_db 60 ''u3'' ''c'' alice_again
      = (Inl (HTTPException 400 ''User already exists''), sample_db)"
    by blast
  have "\<forall>u\<in>set (users sample_db).
      u_email u \<noteq> ur_email carol_request \<and> u_username u \<noteq> ur_username carol_request"
    by (simp add: sample_defs carol_request_def)
  with register_conflict_or_token[of sample_db carol_request sample_globals 60 "''u3''" "''c''"]
  obtain resp d' e
    where run: "register sample_globals sample_db 60 ''u3'' ''c'' carol_request = (Inr resp, d')"
      and d': "d' = sample_db\<lparr>users := users sample_db @
          [\<lparr>u_id = ''u3'', u_username = ur_username carol_request,
            u_email = ur_email carol_request, u_bio = Some [], u_avatar = Some [],
            u_created_at = 60,
            u_password_hash = hash_password sample_globals ''c'' (ur_password carol_request)\<rparr>]\<rparr>"
      and pub: "pub_id (resp_user resp) = ''u3''"
      and late: "real_of_int 60 / 1000000 + 2591999 < real_of_int e"
      and valid: "\<forall>clock. clock < real_of_int e \<longrightarrow>
          (\<exists>user. get_current_user sample_globals d' clock (resp_token resp) = Inr user \<and>
             u_id user = ''u3'')"
    by auto
  from run have tok: "resp_token resp = create_access_token sample_globals 60 ''u3''"
    by (auto simp: register_def Let_def split: option.splits)
  from late have "1 < real_of_int e" by simp
  with valid obtain user
    where "get_current_user sample_globals d' 1 (resp_token resp) = Inr user" "u_id user = ''u3''"
    by blast
  moreover have "map u_id (users d') = [''u1'', ''u2'', ''u3'']"
    by (simp add: d' sample_defs)
  ultimately show ?thesis
    using run tok pub conflict dup by simp
qed

subsection \<open>The password hash in responses\<close>








subsection \<open>Password hashing\<close>

text \<open>
  \<open>hash_password\<close> and \<open>verify_password\<close> return what the password context
  returns, so what holds of them is what holds of the context. One fact needs no more
  than a bound on the length of its hashes: a context with such a bound cannot both
  accept every password against its own hash and reject every other password against
  it, since then hashing with a fixed salt would map the infinitely many passwords
  one-to-one into the finitely many strings within the bound.
\<close>

lemma bounded_hashes_collide:
  assumes bound: "\<forall>salt p. length (hash_password g salt p) \<le> n"
  shows "\<not> ((\<forall>salt p. verify_password g p (hash_password g salt p)) \<and>
     (\<forall>salt p q. p \<noteq> q \<longrightarrow> \<not> verify_password g p (hash_password g salt q)))"
proof
  assume both: "(\<forall>salt p. verify_password g p (hash_password g salt p)) \<and>
     (\<forall>salt p q. p \<noteq> q \<longrightarrow> \<not> verify_password g p (hash_password g salt q))"
  let ?h = "hash_password g []"
  have "inj ?h"
  proof (rule injI)
    fix p q assume eq: "?h p = ?h q"
    from both have "verify_password g p (?h p)" by blast
    with eq have "verify_password g p (?h q)" by simp
    with both show "p = q" by blast
  qed
  moreover have "range ?h \<subseteq> {xs. set xs \<subseteq> UNIV \<and> length xs \<le> n}"
    using bound by auto
  then have "finite (range ?h)"
    by (rule finite_subset) (rule finite_lists_length_le, simp)
  ultimately have "finite (UNIV :: string set)"
    by (rule finite_imageD[rotated])
  then show False
    by (simp add: infinite_UNIV_listI)
qed

end
